theory Spec2Isabelle
  imports Main
begin

section \<open>Exception classes (1.cpp, lines 8--45)\<close>

text \<open>
  The program signals failure by throwing objects of a small class hierarchy rooted in
  \<^verbatim>\<open>std::exception\<close>. An exception object is modelled by its dynamic class and the
  text that \<^verbatim>\<open>what()\<close> returns. The string literals of the source are Cyrillic; they
  are given here as the UTF-8 bytes of the source file.
\<close>

datatype cls =
    std_exception
  | std_logic_error
  | std_invalid_argument
  | std_out_of_range
  | cls_ProgramError
  | cls_InsufficientPrivilegesError
  | cls_ConversionError
  | cls_ValueConversionError
  | cls_InterfaceCastError

datatype exn = Exn (dyn_class: cls) (message: string)

text \<open>The direct public base named in each class declaration.\<close>

fun base :: "cls \<Rightarrow> cls option" where
  "base std_exception = None"
| "base std_logic_error = Some std_exception"
| "base std_invalid_argument = Some std_logic_error"
| "base std_out_of_range = Some std_logic_error"
| "base cls_ProgramError = Some std_exception"
| "base cls_InsufficientPrivilegesError = Some cls_ProgramError"
| "base cls_ConversionError = Some cls_ProgramError"
| "base cls_ValueConversionError = Some cls_ProgramError"
| "base cls_InterfaceCastError = Some cls_ProgramError"

fun rank :: "cls \<Rightarrow> nat" where
  "rank std_exception = 0"
| "rank std_logic_error = 1"
| "rank std_invalid_argument = 2"
| "rank std_out_of_range = 2"
| "rank cls_ProgramError = 1"
| "rank cls_InsufficientPrivilegesError = 2"
| "rank cls_ConversionError = 2"
| "rank cls_ValueConversionError = 2"
| "rank cls_InterfaceCastError = 2"

text \<open>A class together with all its bases, nearest first.\<close>

function supers :: "cls \<Rightarrow> cls list" where
  "supers c = c # (case base c of None \<Rightarrow> [] | Some b \<Rightarrow> supers b)"
  by pat_completeness auto
termination
proof (relation "measure rank")
  show "wf (measure rank)" by simp
next
  fix c b
  assume "base c = Some b"
  then show "(b, c) \<in> measure rank" by (cases c) auto
qed

declare supers.simps [simp del]

text \<open>
  A handler \<^verbatim>\<open>catch (const D&)\<close> takes an exception whose dynamic class is \<open>D\<close> or
  derives from \<open>D\<close>.
\<close>

definition catches :: "cls \<Rightarrow> exn \<Rightarrow> bool" where
  "catches d e = (d \<in> set (supers (dyn_class e)))"

text \<open>\<^verbatim>\<open>ProgramError::what()\<close> returns the stored message; the four derived classes do
  not override it. Each of them has one constructor, without parameters, which passes its
  literal to the constructor of \<^verbatim>\<open>ProgramError\<close> (lines 21--23, 28--30, 35--37, 42--44).\<close>

definition what :: "exn \<Rightarrow> string" where
  "what e = message e"

text \<open>The constructor \<^verbatim>\<open>ProgramError(const std::string& msg) : message(msg)\<close> (line 12).\<close>

definition ProgramError :: "string \<Rightarrow> exn" where
  "ProgramError msg = Exn cls_ProgramError msg"

text \<open>
  An object of a class derived from \<^verbatim>\<open>ProgramError\<close>: its base part is what the base
  constructor built, its dynamic class is the derived one. The derived classes add no
  member, so the message is the one the base constructor stored.
\<close>

definition derived :: "cls \<Rightarrow> exn \<Rightarrow> exn" where
  "derived c b = (case b of Exn c0 m \<Rightarrow> Exn c m)"

definition msg_InsufficientPrivileges :: string where
  "msg_InsufficientPrivileges =
    [CHR 0xD0, CHR 0x9D, CHR 0xD0, CHR 0xB5, CHR 0xD0, CHR 0xB4, CHR 0xD0, CHR 0xBE, CHR 0xD1,
     CHR 0x81, CHR 0xD1, CHR 0x82, CHR 0xD0, CHR 0xB0, CHR 0xD1, CHR 0x82, CHR 0xD0, CHR 0xBE,
     CHR 0xD1, CHR 0x87, CHR 0xD0, CHR 0xBD, CHR 0xD0, CHR 0xBE, CHR 0x20, CHR 0xD0, CHR 0xBF,
     CHR 0xD1, CHR 0x80, CHR 0xD0, CHR 0xB8, CHR 0xD0, CHR 0xB2, CHR 0xD0, CHR 0xB8, CHR 0xD0,
     CHR 0xBB, CHR 0xD0, CHR 0xB5, CHR 0xD0, CHR 0xB3, CHR 0xD0, CHR 0xB8, CHR 0xD0, CHR 0xB9,
     CHR 0x20, CHR 0xD0, CHR 0xB4, CHR 0xD0, CHR 0xBB, CHR 0xD1, CHR 0x8F, CHR 0x20, CHR 0xD0,
     CHR 0xB2, CHR 0xD1, CHR 0x8B, CHR 0xD0, CHR 0xBF, CHR 0xD0, CHR 0xBE, CHR 0xD0, CHR 0xBB,
     CHR 0xD0, CHR 0xBD, CHR 0xD0, CHR 0xB5, CHR 0xD0, CHR 0xBD, CHR 0xD0, CHR 0xB8, CHR 0xD1,
     CHR 0x8F, CHR 0x20, CHR 0xD0, CHR 0xBE, CHR 0xD0, CHR 0xBF, CHR 0xD0, CHR 0xB5, CHR 0xD1,
     CHR 0x80, CHR 0xD0, CHR 0xB0, CHR 0xD1, CHR 0x86, CHR 0xD0, CHR 0xB8, CHR 0xD0, CHR 0xB8]"

definition msg_Conversion :: string where
  "msg_Conversion =
    [CHR 0xD0, CHR 0x9E, CHR 0xD1, CHR 0x88, CHR 0xD0, CHR 0xB8, CHR 0xD0, CHR 0xB1, CHR 0xD0,
     CHR 0xBA, CHR 0xD0, CHR 0xB0, CHR 0x20, CHR 0xD0, CHR 0xBF, CHR 0xD1, CHR 0x80, CHR 0xD0,
     CHR 0xB5, CHR 0xD0, CHR 0xBE, CHR 0xD0, CHR 0xB1, CHR 0xD1, CHR 0x80, CHR 0xD0, CHR 0xB0,
     CHR 0xD0, CHR 0xB7, CHR 0xD0, CHR 0xBE, CHR 0xD0, CHR 0xB2, CHR 0xD0, CHR 0xB0, CHR 0xD0,
     CHR 0xBD, CHR 0xD0, CHR 0xB8, CHR 0xD1, CHR 0x8F, CHR 0x20, CHR 0xD1, CHR 0x82, CHR 0xD0,
     CHR 0xB8, CHR 0xD0, CHR 0xBF, CHR 0xD0, CHR 0xBE, CHR 0xD0, CHR 0xB2, CHR 0x20, CHR 0xD0,
     CHR 0xB4, CHR 0xD0, CHR 0xB0, CHR 0xD0, CHR 0xBD, CHR 0xD0, CHR 0xBD, CHR 0xD1, CHR 0x8B,
     CHR 0xD1, CHR 0x85]"

definition msg_ValueConversion :: string where
  "msg_ValueConversion =
    [CHR 0xD0, CHR 0x9D, CHR 0xD0, CHR 0xB5, CHR 0xD0, CHR 0xB2, CHR 0xD0, CHR 0xBE, CHR 0xD0,
     CHR 0xB7, CHR 0xD0, CHR 0xBC, CHR 0xD0, CHR 0xBE, CHR 0xD0, CHR 0xB6, CHR 0xD0, CHR 0xBD,
     CHR 0xD0, CHR 0xBE, CHR 0x20, CHR 0xD0, CHR 0xBF, CHR 0xD1, CHR 0x80, CHR 0xD0, CHR 0xB5,
     CHR 0xD0, CHR 0xBE, CHR 0xD0, CHR 0xB1, CHR 0xD1, CHR 0x80, CHR 0xD0, CHR 0xB0, CHR 0xD0,
     CHR 0xB7, CHR 0xD0, CHR 0xBE, CHR 0xD0, CHR 0xB2, CHR 0xD0, CHR 0xB0, CHR 0xD1, CHR 0x82,
     CHR 0xD1, CHR 0x8C, CHR 0x20, CHR 0xD0, CHR 0xB7, CHR 0xD0, CHR 0xBD, CHR 0xD0, CHR 0xB0,
     CHR 0xD1, CHR 0x87, CHR 0xD0, CHR 0xB5, CHR 0xD0, CHR 0xBD, CHR 0xD0, CHR 0xB8, CHR 0xD0,
     CHR 0xB5]"

definition msg_InterfaceCast :: string where
  "msg_InterfaceCast =
    [CHR 0xD0, CHR 0x9D, CHR 0xD0, CHR 0xB5, CHR 0xD0, CHR 0xB2, CHR 0xD0, CHR 0xBE, CHR 0xD0,
     CHR 0xB7, CHR 0xD0, CHR 0xBC, CHR 0xD0, CHR 0xBE, CHR 0xD0, CHR 0xB6, CHR 0xD0, CHR 0xBD,
     CHR 0xD0, CHR 0xBE, CHR 0x20, CHR 0xD0, CHR 0xBF, CHR 0xD1, CHR 0x80, CHR 0xD0, CHR 0xB8,
     CHR 0xD0, CHR 0xB2, CHR 0xD0, CHR 0xB5, CHR 0xD1, CHR 0x81, CHR 0xD1, CHR 0x82, CHR 0xD0,
     CHR 0xB8, CHR 0x20, CHR 0xD0, CHR 0xBA, CHR 0x20, CHR 0xD0, CHR 0xB8, CHR 0xD0, CHR 0xBD,
     CHR 0xD1, CHR 0x82, CHR 0xD0, CHR 0xB5, CHR 0xD1, CHR 0x80, CHR 0xD1, CHR 0x84, CHR 0xD0,
     CHR 0xB5, CHR 0xD0, CHR 0xB9, CHR 0xD1, CHR 0x81, CHR 0xD1, CHR 0x83]"

definition InsufficientPrivilegesError :: exn where
  "InsufficientPrivilegesError = derived cls_InsufficientPrivilegesError (ProgramError msg_InsufficientPrivileges)"

definition ConversionError :: exn where
  "ConversionError = derived cls_ConversionError (ProgramError msg_Conversion)"

definition ValueConversionError :: exn where
  "ValueConversionError = derived cls_ValueConversionError (ProgramError msg_ValueConversion)"

definition InterfaceCastError :: exn where
  "InterfaceCastError = derived cls_InterfaceCastError (ProgramError msg_InterfaceCast)"

definition invalid_argument :: "string \<Rightarrow> exn" where
  "invalid_argument msg = Exn std_invalid_argument msg"

definition out_of_range :: "string \<Rightarrow> exn" where
  "out_of_range msg = Exn std_out_of_range msg"

section \<open>Decimal rendering (\<^verbatim>\<open>std::to_string\<close> on \<^verbatim>\<open>size_t\<close>)\<close>

text \<open>
  Indices and sizes are \<^verbatim>\<open>size_t\<close>. No arithmetic is done on them, so they are natural
  numbers here; a negative index cannot be written in that type.
\<close>

definition digit_char :: "nat \<Rightarrow> char" where
  "digit_char d = ''0123456789'' ! d"

fun to_string :: "nat \<Rightarrow> string" where
  "to_string n =
     (if n < 10 then [digit_char n] else to_string (n div 10) @ [digit_char (n mod 10)])"

declare to_string.simps [simp del]

definition msg_index_prefix :: string where
  "msg_index_prefix =
    [CHR 0xD0, CHR 0x98, CHR 0xD0, CHR 0xBD, CHR 0xD0, CHR 0xB4, CHR 0xD0, CHR 0xB5, CHR 0xD0,
     CHR 0xBA, CHR 0xD1, CHR 0x81, CHR 0x20]"

definition msg_index_middle :: string where
  "msg_index_middle =
    [CHR 0x20, CHR 0xD0, CHR 0xB2, CHR 0xD1, CHR 0x8B, CHR 0xD1, CHR 0x85, CHR 0xD0, CHR 0xBE,
     CHR 0xD0, CHR 0xB4, CHR 0xD0, CHR 0xB8, CHR 0xD1, CHR 0x82, CHR 0x20, CHR 0xD0, CHR 0xB7,
     CHR 0xD0, CHR 0xB0, CHR 0x20, CHR 0xD0, CHR 0xB3, CHR 0xD1, CHR 0x80, CHR 0xD0, CHR 0xB0,
     CHR 0xD0, CHR 0xBD, CHR 0xD0, CHR 0xB8, CHR 0xD1, CHR 0x86, CHR 0xD1, CHR 0x8B, CHR 0x20,
     CHR 0xD0, CHR 0xBC, CHR 0xD0, CHR 0xB0, CHR 0xD1, CHR 0x81, CHR 0xD1, CHR 0x81, CHR 0xD0,
     CHR 0xB8, CHR 0xD0, CHR 0xB2, CHR 0xD0, CHR 0xB0, CHR 0x20, CHR 0xD1, CHR 0x80, CHR 0xD0,
     CHR 0xB0, CHR 0xD0, CHR 0xB7, CHR 0xD0, CHR 0xBC, CHR 0xD0, CHR 0xB5, CHR 0xD1, CHR 0x80,
     CHR 0xD0, CHR 0xB0, CHR 0x20]"

definition msg_null_pointer :: string where
  "msg_null_pointer =
    [CHR 0xD0, CHR 0x9F, CHR 0xD0, CHR 0xB5, CHR 0xD1, CHR 0x80, CHR 0xD0, CHR 0xB5, CHR 0xD0,
     CHR 0xB4, CHR 0xD0, CHR 0xB0, CHR 0xD0, CHR 0xBD, CHR 0x20, CHR 0xD0, CHR 0xBD, CHR 0xD1,
     CHR 0x83, CHR 0xD0, CHR 0xBB, CHR 0xD0, CHR 0xB5, CHR 0xD0, CHR 0xB2, CHR 0xD0, CHR 0xBE,
     CHR 0xD0, CHR 0xB9, CHR 0x20, CHR 0xD1, CHR 0x83, CHR 0xD0, CHR 0xBA, CHR 0xD0, CHR 0xB0,
     CHR 0xD0, CHR 0xB7, CHR 0xD0, CHR 0xB0, CHR 0xD1, CHR 0x82, CHR 0xD0, CHR 0xB5, CHR 0xD0,
     CHR 0xBB, CHR 0xD1, CHR 0x8C]"

text \<open>The text built in \<^verbatim>\<open>operator[]\<close> (lines 108--110 and 117--119).\<close>

definition index_message :: "nat \<Rightarrow> nat \<Rightarrow> string" where
  "index_message index n =
     msg_index_prefix @ to_string index @ msg_index_middle @ to_string n"

section \<open>Memory\<close>

text \<open>
  Objects of the element type \<^verbatim>\<open>T\<close> live on the free store. An address is a natural
  number and \<open>0\<close> is \<^verbatim>\<open>nullptr\<close>. Cell \<open>p - 1\<close> of the heap holds the object at address
  \<open>p\<close>, or \<open>None\<close> once it has been deleted; a new object takes the next address that was
  never used.

  A \<^verbatim>\<open>PointerArray\<close> object is named by a reference (what \<^verbatim>\<open>this\<close> and \<^verbatim>\<open>&other\<close>
  compare in the move assignment), and the state maps each reference to the contents of
  that object's \<^verbatim>\<open>pointers\<close> vector, so that two names of one object are one entry.
\<close>

type_synonym addr = nat
type_synonym ref = nat
type_synonym 'a heap = "'a option list"

definition nullptr :: addr where
  "nullptr = 0"

record 'a state =
  heap :: "'a heap"
  objs :: "ref \<Rightarrow> addr list"

definition lookup :: "'a heap \<Rightarrow> addr \<Rightarrow> 'a option" where
  "lookup h p = (if 0 < p \<and> p \<le> length h then h ! (p - 1) else None)"

text \<open>
  What a call does: it returns a value, or throws, both in the state reached at that
  point; or its behaviour is undefined (deleting or dereferencing a pointer to no live
  object), and then nothing is known afterwards.
\<close>

datatype ('r, 's) outcome = Returns 'r 's | Throws exn 's | Undefined

text \<open>
  \<^verbatim>\<open>new T(args...)\<close>: the constructor of \<^verbatim>\<open>T\<close> is a parameter, a function that
  yields the constructed object or the exception it throws. When it throws, the
  new-expression releases the storage and no object exists.
\<close>

definition op_new :: "('x \<Rightarrow> exn + 'a) \<Rightarrow> 'a state \<Rightarrow> 'x \<Rightarrow> (addr, 'a state) outcome" where
  "op_new ctor s args =
     (case ctor args of
        Inl e \<Rightarrow> Throws e s
      | Inr v \<Rightarrow> Returns (Suc (length (heap s))) (s\<lparr>heap := heap s @ [Some v]\<rparr>))"

text \<open>\<^verbatim>\<open>delete ptr\<close>: nothing for a null pointer, undefined (\<open>None\<close>) for a pointer to no
  live object.\<close>

definition op_delete :: "'a heap \<Rightarrow> addr \<Rightarrow> 'a heap option" where
  "op_delete h p =
     (if p = nullptr then Some h
      else case lookup h p of
             None \<Rightarrow> None
           | Some v \<Rightarrow> Some (h[p - 1 := None]))"

section \<open>\<^verbatim>\<open>PointerArray<T>\<close> (1.cpp, lines 48--130)\<close>

text \<open>The default constructor: an empty vector.\<close>

definition construct :: "'a state \<Rightarrow> ref \<Rightarrow> (unit, 'a state) outcome" where
  "construct s this = Returns () (s\<lparr>objs := (objs s)(this := [])\<rparr>)"

definition size_pa :: "'a state \<Rightarrow> ref \<Rightarrow> nat" where
  "size_pa s this = length (objs s this)"

definition empty_pa :: "'a state \<Rightarrow> ref \<Rightarrow> bool" where
  "empty_pa s this = (objs s this = [])"

text \<open>The loop of \<^verbatim>\<open>clear()\<close> (lines 91--93).\<close>

fun delete_all :: "'a heap \<Rightarrow> addr list \<Rightarrow> 'a heap option" where
  "delete_all h [] = Some h"
| "delete_all h (p # ps) =
     (case op_delete h p of None \<Rightarrow> None | Some h' \<Rightarrow> delete_all h' ps)"

definition clear :: "'a state \<Rightarrow> ref \<Rightarrow> (unit, 'a state) outcome" where
  "clear s this =
     (case delete_all (heap s) (objs s this) of
        None \<Rightarrow> Undefined
      | Some h \<Rightarrow> Returns () (s\<lparr>heap := h, objs := (objs s)(this := [])\<rparr>))"

definition add :: "'a state \<Rightarrow> ref \<Rightarrow> addr \<Rightarrow> (unit, 'a state) outcome" where
  "add s this ptr =
     (if ptr = nullptr then Throws (invalid_argument msg_null_pointer) s
      else Returns () (s\<lparr>objs := (objs s)(this := objs s this @ [ptr])\<rparr>))"

text \<open>The argument \<^verbatim>\<open>new T(...)\<close> is evaluated before \<^verbatim>\<open>push_back\<close> is entered.\<close>

definition emplace ::
  "('x \<Rightarrow> exn + 'a) \<Rightarrow> 'a state \<Rightarrow> ref \<Rightarrow> 'x \<Rightarrow> (unit, 'a state) outcome" where
  "emplace ctor s this args =
     (case op_new ctor s args of
        Returns p s' \<Rightarrow> Returns () (s'\<lparr>objs := (objs s')(this := objs s' this @ [p])\<rparr>)
      | Throws e s' \<Rightarrow> Throws e s'
      | Undefined \<Rightarrow> Undefined)"

text \<open>
  \<^verbatim>\<open>operator[]\<close> returns a reference, modelled by the address of the object it is bound
  to. Forming it dereferences the stored pointer, which is undefined when no live object
  is there. The \<^verbatim>\<open>const\<close> overload has the same body.
\<close>

definition op_index :: "'a state \<Rightarrow> ref \<Rightarrow> nat \<Rightarrow> (addr, 'a state) outcome" where
  "op_index s this index =
     (if index \<ge> length (objs s this)
      then Throws (out_of_range (index_message index (length (objs s this)))) s
      else case lookup (heap s) (objs s this ! index) of
             None \<Rightarrow> Undefined
           | Some v \<Rightarrow> Returns (objs s this ! index) s)"

definition op_index_const :: "'a state \<Rightarrow> ref \<Rightarrow> nat \<Rightarrow> (addr, 'a state) outcome" where
  "op_index_const s this index =
     (if index \<ge> length (objs s this)
      then Throws (out_of_range (index_message index (length (objs s this)))) s
      else case lookup (heap s) (objs s this ! index) of
             None \<Rightarrow> Undefined
           | Some v \<Rightarrow> Returns (objs s this ! index) s)"

text \<open>\<^verbatim>\<open>get\<close> hands out the stored pointer itself and dereferences nothing.\<close>

definition get :: "'a state \<Rightarrow> ref \<Rightarrow> nat \<Rightarrow> (addr, 'a state) outcome" where
  "get s this index =
     (if index \<ge> length (objs s this) then Returns nullptr s
      else Returns (objs s this ! index) s)"

text \<open>
  The move constructor builds the object \<open>this\<close> from \<open>other\<close>; the move assignment
  guards against \<open>this\<close> and \<open>other\<close> being one object. A vector that has been moved from
  is empty (the standard promises it for the move constructor; for the move assignment
  with the default allocator the implementations in use do the same).
\<close>

definition move_construct :: "'a state \<Rightarrow> ref \<Rightarrow> ref \<Rightarrow> (unit, 'a state) outcome" where
  "move_construct s this other =
     Returns () (s\<lparr>objs := (objs s)(this := objs s other, other := [])\<rparr>)"

definition move_assign :: "'a state \<Rightarrow> ref \<Rightarrow> ref \<Rightarrow> (unit, 'a state) outcome" where
  "move_assign s this other =
     (if this \<noteq> other then
        (case clear s this of
           Returns u s1 \<Rightarrow>
             Returns () (s1\<lparr>objs := (objs s1)(this := objs s1 other, other := [])\<rparr>)
         | Throws e s1 \<Rightarrow> Throws e s1
         | Undefined \<Rightarrow> Undefined)
      else Returns () s)"

text \<open>The destructor calls \<^verbatim>\<open>clear()\<close>.\<close>

definition destroy :: "'a state \<Rightarrow> ref \<Rightarrow> (unit, 'a state) outcome" where
  "destroy s this = clear s this"

section \<open>The ownership invariant\<close>

text \<open>
  Every stored pointer points to a live object and is stored once, in one container
  only. The constructors establish this and every operation keeps it, provided \<^verbatim>\<open>add\<close>
  is given a live object that no container holds yet.
\<close>

definition ownership :: "'a state \<Rightarrow> bool" where
  "ownership s \<longleftrightarrow>
     (\<forall>a. distinct (objs s a) \<and> (\<forall>p \<in> set (objs s a). lookup (heap s) p \<noteq> None)) \<and>
     (\<forall>a b. a \<noteq> b \<longrightarrow> set (objs s a) \<inter> set (objs s b) = {})"

section \<open>Notions used in the properties\<close>

definition is_digit :: "char \<Rightarrow> bool" where
  "is_digit c = (c \<in> set ''0123456789'')"

text \<open>The handlers for the four derived classes.\<close>

definition domain_kinds :: "cls list" where
  "domain_kinds =
     [cls_InsufficientPrivilegesError, cls_ConversionError,
      cls_ValueConversionError, cls_InterfaceCastError]"

text \<open>
  State \<open>s'\<close> is state \<open>s\<close> with pointer \<open>p\<close> put at the end of container \<open>a\<close>: one
  element more, the old ones where they were, every live object still live with its
  value, the other containers as they were.
\<close>

definition appended :: "'a state \<Rightarrow> ref \<Rightarrow> 'a state \<Rightarrow> addr \<Rightarrow> bool" where
  "appended s a s' p \<longleftrightarrow>
     size_pa s' a = size_pa s a + 1 \<and>
     objs s' a ! (size_pa s' a - 1) = p \<and>
     (\<forall>i < size_pa s a. objs s' a ! i = objs s a ! i) \<and>
     (\<forall>q w. lookup (heap s) q = Some w \<longrightarrow> lookup (heap s') q = Some w) \<and>
     (\<forall>b. b \<noteq> a \<longrightarrow> objs s' b = objs s b)"

text \<open>
  An example state: a \<^verbatim>\<open>PointerArray<int>\<close> named \<open>0\<close> holding 10, 20 and 30, one
  named \<open>1\<close> holding 7, every other container empty, and an object 99 at address 5
  that the caller still holds.
\<close>

definition demo :: "int state" where
  "demo = \<lparr>heap = [Some 10, Some 20, Some 30, Some 7, Some 99],
            objs = (\<lambda>_. [])(0 := [1, 2, 3], 1 := [4])\<rparr>"

section \<open>The heap\<close>

lemma lookup_null [simp]: "lookup h 0 = None"
  by (simp add: lookup_def)

lemma lookup_append:
  "lookup (h @ [x]) p = (if p = Suc (length h) then x else lookup h p)"
  by (auto simp: lookup_def nth_append)

lemma lookup_free:
  assumes "0 < q"
  shows "lookup (h[q - 1 := None]) p = (if p = q then None else lookup h p)"
  using assms by (auto simp: lookup_def nth_list_update)

lemma lookup_free_Suc:
  assumes "0 < q"
  shows "lookup (h[q - Suc 0 := None]) p = (if p = q then None else lookup h p)"
  using assms by (auto simp: lookup_def nth_list_update)

lemma op_delete_live:
  assumes "lookup h p \<noteq> None"
  shows "op_delete h p = Some (h[p - 1 := None])"
  using assms by (auto simp: op_delete_def nullptr_def)

lemma delete_all_owned:
  assumes "distinct ps" and "\<forall>p \<in> set ps. lookup h p \<noteq> None"
  shows "\<exists>h'. delete_all h ps = Some h' \<and> length h' = length h \<and>
           (\<forall>q. lookup h' q = (if q \<in> set ps then None else lookup h q))"
  using assms
proof (induction ps arbitrary: h)
  case Nil
  then show ?case by simp
next
  case (Cons p ps)
  let ?h1 = "h[p - 1 := None]"
  from Cons.prems have live: "lookup h p \<noteq> None" by simp
  then have pos: "0 < p" by (cases "p = 0") auto
  have del: "op_delete h p = Some ?h1" using live by (rule op_delete_live)
  have "\<forall>q \<in> set ps. lookup ?h1 q \<noteq> None"
    using Cons.prems pos by (auto simp: lookup_free_Suc)
  moreover have "distinct ps" using Cons.prems by simp
  ultimately obtain h' where h': "delete_all ?h1 ps = Some h'" "length h' = length ?h1"
      "\<forall>q. lookup h' q = (if q \<in> set ps then None else lookup ?h1 q)"
    using Cons.IH by blast
  show ?case
    using del h' pos by (auto simp: lookup_free_Suc)
qed

section \<open>Decimal rendering and the out-of-range message\<close>

lemma digit_char_is_digit: "d < 10 \<Longrightarrow> is_digit (digit_char d)"
  unfolding is_digit_def digit_char_def by (rule nth_mem) simp

lemma digit_char_inj:
  assumes "d < 10" and "e < 10" and "digit_char d = digit_char e"
  shows "d = e"
proof -
  have "distinct ''0123456789''" by simp
  moreover have "d < length ''0123456789''" "e < length ''0123456789''"
    using assms by simp_all
  ultimately show ?thesis
    using assms(3) unfolding digit_char_def by (simp only: nth_eq_iff_index_eq)
qed

lemma to_string_digits: "\<forall>c \<in> set (to_string n). is_digit c"
proof (induction n rule: to_string.induct)
  case (1 n)
  show ?case
  proof (cases "n < 10")
    case True
    then show ?thesis
      by (simp add: to_string.simps [of n] digit_char_is_digit)
  next
    case False
    then show ?thesis
      using 1 by (simp add: to_string.simps [of n] digit_char_is_digit)
  qed
qed

lemma to_string_nonempty: "to_string n \<noteq> []"
  by (simp add: to_string.simps [of n])

lemma to_string_inj: "to_string n = to_string m \<Longrightarrow> n = m"
proof (induction n arbitrary: m rule: to_string.induct)
  case (1 n)
  show ?case
  proof (cases "n < 10")
    case small: True
    show ?thesis
    proof (cases "m < 10")
      case True
      with small 1(2) show ?thesis
        by (simp add: to_string.simps [of n] to_string.simps [of m] digit_char_inj)
    next
      case False
      with small 1(2) show ?thesis
        using to_string_nonempty [of "m div 10"]
        by (simp add: to_string.simps [of n] to_string.simps [of m])
    qed
  next
    case big: False
    show ?thesis
    proof (cases "m < 10")
      case True
      with big 1(2) show ?thesis
        using to_string_nonempty [of "n div 10"]
        by (simp add: to_string.simps [of n] to_string.simps [of m])
    next
      case False
      with big 1(2) have eq: "to_string (n div 10) = to_string (m div 10)"
        and last: "digit_char (n mod 10) = digit_char (m mod 10)"
        by (simp_all add: to_string.simps [of n] to_string.simps [of m])
      from 1(1) [OF big eq] have "n div 10 = m div 10" .
      moreover from last have "n mod 10 = m mod 10"
        by (intro digit_char_inj) simp_all
      ultimately show ?thesis
        by (metis div_mult_mod_eq)
    qed
  qed
qed

lemma middle_starts_with_space: "\<exists>rest. msg_index_middle = CHR 0x20 # rest"
  by (simp add: msg_index_middle_def)

lemma takeWhile_digits:
  assumes "\<forall>c \<in> set ds. is_digit c"
  shows "takeWhile is_digit (ds @ CHR 0x20 # rest) = ds"
proof -
  have "\<not> is_digit (CHR 0x20)" by (simp add: is_digit_def)
  then show ?thesis using assms by (simp add: takeWhile_append2)
qed

lemma index_message_inj:
  assumes "index_message i n = index_message j m"
  shows "i = j \<and> n = m"
proof -
  obtain rest where mid: "msg_index_middle = CHR 0x20 # rest"
    using middle_starts_with_space by blast
  from assms have eq:
    "to_string i @ CHR 0x20 # (rest @ to_string n) = to_string j @ CHR 0x20 # (rest @ to_string m)"
    by (simp add: index_message_def mid)
  have "takeWhile is_digit (to_string i @ CHR 0x20 # (rest @ to_string n)) = to_string i"
    by (rule takeWhile_digits) (rule to_string_digits)
  moreover
  have "takeWhile is_digit (to_string j @ CHR 0x20 # (rest @ to_string m)) = to_string j"
    by (rule takeWhile_digits) (rule to_string_digits)
  ultimately have ij: "to_string i = to_string j" using eq by simp
  with eq have "to_string n = to_string m" by simp
  with ij show ?thesis by (simp add: to_string_inj)
qed

section \<open>Handlers\<close>

lemma supers_eval:
  "supers std_exception = [std_exception]"
  "supers std_logic_error = [std_logic_error, std_exception]"
  "supers std_invalid_argument = [std_invalid_argument, std_logic_error, std_exception]"
  "supers std_out_of_range = [std_out_of_range, std_logic_error, std_exception]"
  "supers cls_ProgramError = [cls_ProgramError, std_exception]"
  "supers cls_InsufficientPrivilegesError =
     [cls_InsufficientPrivilegesError, cls_ProgramError, std_exception]"
  "supers cls_ConversionError = [cls_ConversionError, cls_ProgramError, std_exception]"
  "supers cls_ValueConversionError =
     [cls_ValueConversionError, cls_ProgramError, std_exception]"
  "supers cls_InterfaceCastError = [cls_InterfaceCastError, cls_ProgramError, std_exception]"
  by (simp_all add: supers.simps)

section \<open>Keeping the invariant\<close>

lemma ownershipD_live:
  "ownership s \<Longrightarrow> p \<in> set (objs s a) \<Longrightarrow> lookup (heap s) p \<noteq> None"
  by (simp add: ownership_def)

lemma ownershipD_disjoint:
  "ownership s \<Longrightarrow> a \<noteq> b \<Longrightarrow> p \<in> set (objs s a) \<Longrightarrow> p \<notin> set (objs s b)"
  unfolding ownership_def disjoint_iff by blast

lemma ownershipD_distinct: "ownership s \<Longrightarrow> distinct (objs s a)"
  by (simp add: ownership_def)

lemma ownership_nonnull:
  "ownership s \<Longrightarrow> p \<in> set (objs s a) \<Longrightarrow> p \<noteq> nullptr"
  using ownershipD_live [of s p a] by (auto simp: nullptr_def lookup_def split: if_splits)

lemma op_index_owned:
  assumes "ownership s" and "i < length (objs s a)"
  shows "op_index s a i = Returns (objs s a ! i) s"
proof -
  have "lookup (heap s) (objs s a ! i) \<noteq> None"
    using assms by (intro ownershipD_live [of s _ a]) simp_all
  then show ?thesis using assms(2) by (auto simp: op_index_def)
qed

lemma clear_owned:
  assumes "ownership s"
  shows "\<exists>h'. clear s a = Returns () (s\<lparr>heap := h', objs := (objs s)(a := [])\<rparr>) \<and>
           length h' = length (heap s) \<and>
           (\<forall>q. lookup h' q = (if q \<in> set (objs s a) then None else lookup (heap s) q))"
proof -
  have "distinct (objs s a)" and "\<forall>p \<in> set (objs s a). lookup (heap s) p \<noteq> None"
    using assms by (simp_all add: ownership_def)
  then obtain h' where "delete_all (heap s) (objs s a) = Some h'"
    and "length h' = length (heap s)"
    and "\<forall>q. lookup h' q = (if q \<in> set (objs s a) then None else lookup (heap s) q)"
    using delete_all_owned by blast
  then show ?thesis by (intro exI [of _ h']) (simp add: clear_def)
qed

lemma ownership_after_clear:
  assumes "ownership s"
    and "\<forall>q. lookup h' q = (if q \<in> set (objs s a) then None else lookup (heap s) q)"
  shows "ownership (s\<lparr>heap := h', objs := (objs s)(a := [])\<rparr>)"
  unfolding ownership_def
proof (intro conjI allI impI ballI)
  fix c
  show "distinct (objs (s\<lparr>heap := h', objs := (objs s)(a := [])\<rparr>) c)"
    using ownershipD_distinct [OF assms(1), of c] by simp
next
  fix c p
  assume "p \<in> set (objs (s\<lparr>heap := h', objs := (objs s)(a := [])\<rparr>) c)"
  then have ca: "c \<noteq> a" and p: "p \<in> set (objs s c)" by (auto split: if_splits)
  then have "p \<notin> set (objs s a)" using ownershipD_disjoint [OF assms(1)] by blast
  moreover have "lookup (heap s) p \<noteq> None" using ownershipD_live [OF assms(1) p] .
  ultimately show "lookup (heap (s\<lparr>heap := h', objs := (objs s)(a := [])\<rparr>)) p \<noteq> None"
    using assms(2) by simp
next
  fix c d :: ref
  assume "c \<noteq> d"
  then show "set (objs (s\<lparr>heap := h', objs := (objs s)(a := [])\<rparr>) c) \<inter>
             set (objs (s\<lparr>heap := h', objs := (objs s)(a := [])\<rparr>) d) = {}"
    using ownershipD_disjoint [OF assms(1), of c d] by auto
qed

lemma ownership_after_move:
  assumes "ownership s" and "b \<noteq> a"
  shows "ownership (s\<lparr>objs := (objs s)(b := objs s a, a := [])\<rparr>)"
  unfolding ownership_def
proof (intro conjI allI impI ballI)
  fix c
  show "distinct (objs (s\<lparr>objs := (objs s)(b := objs s a, a := [])\<rparr>) c)"
    using ownershipD_distinct [OF assms(1)] by simp
next
  fix c p
  assume "p \<in> set (objs (s\<lparr>objs := (objs s)(b := objs s a, a := [])\<rparr>) c)"
  then have "\<exists>d. p \<in> set (objs s d)" by (auto split: if_splits)
  then show "lookup (heap (s\<lparr>objs := (objs s)(b := objs s a, a := [])\<rparr>)) p \<noteq> None"
    using ownershipD_live [OF assms(1)] by auto
next
  fix c d :: ref
  assume "c \<noteq> d"
  then show "set (objs (s\<lparr>objs := (objs s)(b := objs s a, a := [])\<rparr>) c) \<inter>
             set (objs (s\<lparr>objs := (objs s)(b := objs s a, a := [])\<rparr>) d) = {}"
    using ownershipD_disjoint [OF assms(1)] assms(2) by auto
qed

lemma emplace_appends:
  assumes "ctor x = Inr v"
  shows "emplace ctor s a x =
           Returns () (s\<lparr>heap := heap s @ [Some v],
                         objs := (objs s)(a := objs s a @ [Suc (length (heap s))])\<rparr>)"
  using assms by (simp add: emplace_def op_new_def)

lemma ownership_after_emplace:
  assumes "ownership s"
  shows "ownership (s\<lparr>heap := heap s @ [Some v],
                      objs := (objs s)(a := objs s a @ [Suc (length (heap s))])\<rparr>)"
proof -
  have fresh: "Suc (length (heap s)) \<notin> set (objs s c)" for c
    using ownershipD_live [OF assms, of "Suc (length (heap s))" c]
    by (auto simp: lookup_def)
  show ?thesis
    unfolding ownership_def
  proof (intro conjI allI impI ballI)
    fix c
    show "distinct (objs (s\<lparr>heap := heap s @ [Some v],
                      objs := (objs s)(a := objs s a @ [Suc (length (heap s))])\<rparr>) c)"
      using ownershipD_distinct [OF assms] fresh by simp
  next
    fix c p
    assume "p \<in> set (objs (s\<lparr>heap := heap s @ [Some v],
                      objs := (objs s)(a := objs s a @ [Suc (length (heap s))])\<rparr>) c)"
    then have "p = Suc (length (heap s)) \<or> (\<exists>d. p \<in> set (objs s d))"
      by (auto split: if_splits)
    then show "lookup (heap (s\<lparr>heap := heap s @ [Some v],
                      objs := (objs s)(a := objs s a @ [Suc (length (heap s))])\<rparr>)) p \<noteq> None"
      using ownershipD_live [OF assms] by (auto simp: lookup_append)
  next
    fix c d :: ref
    assume "c \<noteq> d"
    then show "set (objs (s\<lparr>heap := heap s @ [Some v],
                      objs := (objs s)(a := objs s a @ [Suc (length (heap s))])\<rparr>) c) \<inter>
               set (objs (s\<lparr>heap := heap s @ [Some v],
                      objs := (objs s)(a := objs s a @ [Suc (length (heap s))])\<rparr>) d) = {}"
      using ownershipD_disjoint [OF assms] fresh by auto
  qed
qed

lemma ownership_after_add:
  assumes "ownership s" and "lookup (heap s) p \<noteq> None" and "\<forall>c. p \<notin> set (objs s c)"
  shows "ownership (s\<lparr>objs := (objs s)(a := objs s a @ [p])\<rparr>)"
  unfolding ownership_def
proof (intro conjI allI impI ballI)
  fix c
  show "distinct (objs (s\<lparr>objs := (objs s)(a := objs s a @ [p])\<rparr>) c)"
    using ownershipD_distinct [OF assms(1)] assms(3) by simp
next
  fix c q
  assume "q \<in> set (objs (s\<lparr>objs := (objs s)(a := objs s a @ [p])\<rparr>) c)"
  then have "q = p \<or> (\<exists>d. q \<in> set (objs s d))" by (auto split: if_splits)
  then show "lookup (heap (s\<lparr>objs := (objs s)(a := objs s a @ [p])\<rparr>)) q \<noteq> None"
    using ownershipD_live [OF assms(1)] assms(2) by auto
next
  fix c d :: ref
  assume "c \<noteq> d"
  then show "set (objs (s\<lparr>objs := (objs s)(a := objs s a @ [p])\<rparr>) c) \<inter>
             set (objs (s\<lparr>objs := (objs s)(a := objs s a @ [p])\<rparr>) d) = {}"
    using ownershipD_disjoint [OF assms(1)] assms(3) by auto
qed

lemma ownership_initial: "ownership \<lparr>heap = [], objs = (\<lambda>_. [])\<rparr>"
  by (simp add: ownership_def)

lemma clear_empty: "objs s a = [] \<Longrightarrow> clear s a = Returns () s"
proof -
  assume e: "objs s a = []"
  then have "(objs s)(a := []) = objs s" by (metis fun_upd_triv)
  with e show ?thesis by (simp add: clear_def)
qed

lemma move_assign_owned:
  assumes "ownership s" and "b \<noteq> a"
  shows "\<exists>h'. clear s b = Returns () (s\<lparr>heap := h', objs := (objs s)(b := [])\<rparr>) \<and>
           move_assign s b a =
             Returns () (s\<lparr>heap := h', objs := (objs s)(b := objs s a, a := [])\<rparr>) \<and>
           (\<forall>q. lookup h' q = (if q \<in> set (objs s b) then None else lookup (heap s) q)) \<and>
           ownership (s\<lparr>heap := h', objs := (objs s)(b := objs s a, a := [])\<rparr>)"
proof -
  obtain h' where c: "clear s b = Returns () (s\<lparr>heap := h', objs := (objs s)(b := [])\<rparr>)"
    and l: "\<forall>q. lookup h' q = (if q \<in> set (objs s b) then None else lookup (heap s) q)"
    using clear_owned [OF assms(1), of b] by blast
  let ?s1 = "s\<lparr>heap := h', objs := (objs s)(b := [])\<rparr>"
  have o1: "ownership ?s1" using assms(1) l by (rule ownership_after_clear)
  have eq: "?s1\<lparr>objs := (objs ?s1)(b := objs ?s1 a, a := [])\<rparr> =
            s\<lparr>heap := h', objs := (objs s)(b := objs s a, a := [])\<rparr>"
    using assms(2) by simp
  have "ownership (?s1\<lparr>objs := (objs ?s1)(b := objs ?s1 a, a := [])\<rparr>)"
    using o1 assms(2) by (rule ownership_after_move)
  then have o2: "ownership (s\<lparr>heap := h', objs := (objs s)(b := objs s a, a := [])\<rparr>)"
    by (simp only: eq)
  have "move_assign s b a =
          Returns () (s\<lparr>heap := h', objs := (objs s)(b := objs s a, a := [])\<rparr>)"
    using assms(2) c by (simp add: move_assign_def)
  with c l o2 show ?thesis by blast
qed

lemma transfer_consequences:
  assumes own: "ownership s'" and ba: "b \<noteq> a"
    and b: "objs s' b = objs s a" and a: "objs s' a = []"
    and ctor: "ctor x = Inr v"
  shows "size_pa s' b = size_pa s a \<and>
         (\<forall>i < size_pa s a. op_index s' b i = Returns (objs s a ! i) s') \<and>
         size_pa s' a = 0 \<and> empty_pa s' a \<and>
         (\<exists>s''. emplace ctor s' a x = Returns () s'' \<and> size_pa s'' a = 1 \<and>
                (\<exists>p. op_index s'' a 0 = Returns p s'' \<and> lookup (heap s'') p = Some v) \<and>
                objs s'' b = objs s' b \<and> ownership s'')"
proof (intro conjI allI impI)
  show "size_pa s' b = size_pa s a" by (simp add: size_pa_def b)
  show "size_pa s' a = 0" by (simp add: size_pa_def a)
  show "empty_pa s' a" by (simp add: empty_pa_def a)
next
  fix i
  assume "i < size_pa s a"
  then have "i < length (objs s' b)" by (simp add: size_pa_def b)
  from op_index_owned [OF own this] show "op_index s' b i = Returns (objs s a ! i) s'"
    by (simp add: b)
next
  let ?p = "Suc (length (heap s'))"
  let ?s2 = "s'\<lparr>heap := heap s' @ [Some v], objs := (objs s')(a := objs s' a @ [?p])\<rparr>"
  have e: "emplace ctor s' a x = Returns () ?s2" using ctor by (rule emplace_appends)
  have o: "ownership ?s2" using own by (rule ownership_after_emplace)
  have sz: "size_pa ?s2 a = 1" by (simp add: size_pa_def a)
  have "op_index ?s2 a 0 = Returns (objs ?s2 a ! 0) ?s2"
    using o by (rule op_index_owned) (simp add: a)
  then have ix: "op_index ?s2 a 0 = Returns ?p ?s2" by (simp add: a)
  have lk: "lookup (heap ?s2) ?p = Some v" by (simp add: lookup_append)
  have ob: "objs ?s2 b = objs s' b" using ba by simp
  show "\<exists>s''. emplace ctor s' a x = Returns () s'' \<and> size_pa s'' a = 1 \<and>
          (\<exists>p. op_index s'' a 0 = Returns p s'' \<and> lookup (heap s'') p = Some v) \<and>
          objs s'' b = objs s' b \<and> ownership s''"
    using e sz ix lk ob o by blast
qed

text \<open>
  So every call that returns keeps the invariant; a call that throws leaves the state
  as it was.
\<close>

lemma ownership_construct:
  assumes "ownership s" and "construct s a = Returns u s'"
  shows "ownership s'"
proof -
  from assms(2) have s': "s' = s\<lparr>objs := (objs s)(a := [])\<rparr>" by (simp add: construct_def)
  have "ownership (s\<lparr>objs := (objs s)(a := objs s a, a := [])\<rparr>)"
    using assms(1) unfolding ownership_def by (auto simp: disjoint_iff)
  then show ?thesis by (simp add: s')
qed

lemma ownership_emplace:
  assumes "ownership s" and "emplace ctor s a x = Returns u s'"
  shows "ownership s'"
proof (cases "ctor x")
  case (Inl e)
  with assms(2) show ?thesis by (simp add: emplace_def op_new_def)
next
  case (Inr v)
  have "emplace ctor s a x =
          Returns () (s\<lparr>heap := heap s @ [Some v],
                        objs := (objs s)(a := objs s a @ [Suc (length (heap s))])\<rparr>)"
    using Inr by (rule emplace_appends)
  with assms(2) ownership_after_emplace [OF assms(1), where v = v and a = a] show ?thesis by simp
qed

lemma ownership_add:
  assumes "ownership s" and "lookup (heap s) p \<noteq> None" and "\<forall>c. p \<notin> set (objs s c)"
    and "add s a p = Returns u s'"
  shows "ownership s'"
proof -
  from assms(4) have "s' = s\<lparr>objs := (objs s)(a := objs s a @ [p])\<rparr>"
    by (simp add: add_def split: if_splits)
  then show ?thesis using ownership_after_add [OF assms(1-3)] by simp
qed

lemma ownership_clear:
  assumes "ownership s" and "clear s a = Returns u s'"
  shows "ownership s'"
proof -
  from clear_owned [OF assms(1), of a] obtain h' where
    "clear s a = Returns () (s\<lparr>heap := h', objs := (objs s)(a := [])\<rparr>)"
    and "\<forall>q. lookup h' q = (if q \<in> set (objs s a) then None else lookup (heap s) q)"
    by blast
  then show ?thesis using assms ownership_after_clear [of s h' a] by simp
qed

lemma ownership_move_construct:
  assumes "ownership s" and "b \<noteq> a" and "move_construct s b a = Returns u s'"
  shows "ownership s'"
  using assms ownership_after_move [of s b a] by (simp add: move_construct_def)

lemma ownership_move_assign:
  assumes "ownership s" and "move_assign s b a = Returns u s'"
  shows "ownership s'"
proof (cases "b = a")
  case True
  with assms show ?thesis by (simp add: move_assign_def)
next
  case False
  from move_assign_owned [OF assms(1) False] assms(2) show ?thesis by auto
qed

lemma ownership_demo: "ownership demo"
  by (auto simp: ownership_def demo_def lookup_def)

lemma demo_facts:
  "objs demo 0 = [1, 2, 3]" "objs demo (Suc 0) = [4]" "objs demo 5 = []"
  "size_pa demo 0 = 3" "size_pa demo (Suc 0) = 1"
  "lookup (heap demo) 2 = Some 20" "lookup (heap demo) 4 = Some 7"
  "lookup (heap demo) 5 = Some 99"
  by (simp_all add: demo_def size_pa_def lookup_def)

section \<open>The properties\<close>

text \<open>
  Claim C1. Indexed access, in its mutable and its read-only form, returns the element at
  position \<open>i\<close> exactly when \<open>i < size()\<close>; otherwise it throws \<^verbatim>\<open>std::out_of_range\<close>,
  and the message names the index and the size: no other pair of numbers gives the same
  text. Throwing depends on the index and the size alone. Returning needs the stored
  pointer to be live, which the ownership invariant gives.
\<close>

theorem index_bounds_contract:
  "((\<exists>e s'. op_index s a i = Throws e s') \<longleftrightarrow> \<not> i < size_pa s a) \<and>
   (\<not> i < size_pa s a \<longrightarrow>
      (\<exists>e. op_index s a i = Throws e s \<and> dyn_class e = std_out_of_range \<and>
           what e = index_message i (size_pa s a))) \<and>
   (\<forall>j n. index_message j n = index_message i (size_pa s a) \<longrightarrow>
           j = i \<and> n = size_pa s a) \<and>
   (ownership s \<longrightarrow>
      ((\<exists>r s'. op_index s a i = Returns r s') \<longleftrightarrow> i < size_pa s a) \<and>
      (i < size_pa s a \<longrightarrow>
         op_index s a i = Returns (objs s a ! i) s \<and>
         lookup (heap s) (objs s a ! i) \<noteq> None)) \<and>
   op_index_const s a i = op_index s a i"
proof (intro conjI impI allI)
  show "(\<exists>e s'. op_index s a i = Throws e s') \<longleftrightarrow> \<not> i < size_pa s a"
    by (auto simp: op_index_def size_pa_def split: option.splits)
next
  assume "\<not> i < size_pa s a"
  then show "\<exists>e. op_index s a i = Throws e s \<and> dyn_class e = std_out_of_range \<and>
                 what e = index_message i (size_pa s a)"
    by (simp add: op_index_def size_pa_def out_of_range_def what_def)
next
  fix j n
  assume "index_message j n = index_message i (size_pa s a)"
  then show "j = i" and "n = size_pa s a"
    using index_message_inj by blast+
next
  assume own: "ownership s"
  show "(\<exists>r s'. op_index s a i = Returns r s') \<longleftrightarrow> i < size_pa s a"
  proof (cases "i < length (objs s a)")
    case True
    then show ?thesis using op_index_owned [OF own, of i a] by (simp add: size_pa_def)
  next
    case False
    then show ?thesis by (simp add: op_index_def size_pa_def)
  qed
next
  assume "ownership s" and "i < size_pa s a"
  then show "op_index s a i = Returns (objs s a ! i) s"
    using op_index_owned [of s i a] by (simp add: size_pa_def)
next
  assume "ownership s" and "i < size_pa s a"
  then show "lookup (heap s) (objs s a ! i) \<noteq> None"
    using ownershipD_live [of s "objs s a ! i" a] by (simp add: size_pa_def)
next
  show "op_index_const s a i = op_index s a i"
    by (simp add: op_index_def op_index_const_def)
qed

theorem index_bounds_contract_witness:
  "ownership demo \<and>
   op_index demo 0 1 = Returns 2 demo \<and> lookup (heap demo) 2 = Some 20 \<and>
   op_index demo 0 10 =
     Throws (out_of_range (msg_index_prefix @ ''10'' @ msg_index_middle @ ''3'')) demo"
proof -
  have msg: "index_message 10 3 = msg_index_prefix @ ''10'' @ msg_index_middle @ ''3''"
    by (simp add: index_message_def to_string.simps digit_char_def)
  from index_bounds_contract [of demo 0 1] ownership_demo
  have "op_index demo 0 1 = Returns 2 demo" by (simp add: demo_facts)
  moreover
  from index_bounds_contract [of demo 0 10]
  obtain e where "op_index demo 0 10 = Throws e demo" "dyn_class e = std_out_of_range"
    "what e = index_message 10 3"
    by (auto simp: demo_facts)
  then have "op_index demo 0 10 = Throws (out_of_range (index_message 10 3)) demo"
    by (cases e) (simp add: out_of_range_def what_def)
  ultimately show ?thesis using ownership_demo msg by (simp add: demo_facts)
qed

text \<open>
  Claim C2. Moving container \<open>a\<close> into another container \<open>b\<close>, by move construction or by
  move assignment: \<open>b\<close> then has the size \<open>a\<close> had, index \<open>i\<close> of \<open>b\<close> gives the object
  that index \<open>i\<close> of \<open>a\<close> gave, with its value; \<open>a\<close> has size 0 and holds nothing; and an
  \<^verbatim>\<open>emplace\<close> on \<open>a\<close> then gives it one element, the constructed one, and leaves \<open>b\<close>
  alone.
\<close>

theorem move_transfer:
  assumes "ownership s" and "b \<noteq> a"
    and "mv = move_construct \<or> mv = move_assign"
    and "ctor x = Inr v"
  shows "\<exists>s'. mv s b a = Returns () s' \<and>
           size_pa s' b = size_pa s a \<and>
           (\<forall>i < size_pa s a. op_index s' b i = Returns (objs s a ! i) s') \<and>
           (\<forall>p \<in> set (objs s a). lookup (heap s') p = lookup (heap s) p) \<and>
           size_pa s' a = 0 \<and> empty_pa s' a \<and>
           (\<exists>s''. emplace ctor s' a x = Returns () s'' \<and> size_pa s'' a = 1 \<and>
                  (\<exists>p. op_index s'' a 0 = Returns p s'' \<and> lookup (heap s'') p = Some v) \<and>
                  objs s'' b = objs s' b \<and> ownership s'')"
proof -
  from assms(3) obtain s' where mv: "mv s b a = Returns () s'" and own: "ownership s'"
    and b: "objs s' b = objs s a" and a: "objs s' a = []"
    and keep: "\<forall>p \<in> set (objs s a). lookup (heap s') p = lookup (heap s) p"
  proof
    assume c: "mv = move_construct"
    let ?s' = "s\<lparr>objs := (objs s)(b := objs s a, a := [])\<rparr>"
    have "mv s b a = Returns () ?s'" by (simp add: c move_construct_def)
    moreover have "ownership ?s'" using assms(1,2) by (rule ownership_after_move)
    moreover have "objs ?s' b = objs s a" "objs ?s' a = []" using assms(2) by simp_all
    moreover have "\<forall>p \<in> set (objs s a). lookup (heap ?s') p = lookup (heap s) p" by simp
    ultimately show thesis by (rule that)
  next
    assume c: "mv = move_assign"
    from move_assign_owned [OF assms(1,2)] obtain h' where
      m: "move_assign s b a =
            Returns () (s\<lparr>heap := h', objs := (objs s)(b := objs s a, a := [])\<rparr>)"
      and l: "\<forall>q. lookup h' q = (if q \<in> set (objs s b) then None else lookup (heap s) q)"
      and o: "ownership (s\<lparr>heap := h', objs := (objs s)(b := objs s a, a := [])\<rparr>)"
      by blast
    let ?s' = "s\<lparr>heap := h', objs := (objs s)(b := objs s a, a := [])\<rparr>"
    have "mv s b a = Returns () ?s'" using m c by simp
    moreover note o
    moreover have "objs ?s' b = objs s a" "objs ?s' a = []" using assms(2) by simp_all
    moreover have "\<forall>p \<in> set (objs s a). lookup (heap ?s') p = lookup (heap s) p"
      using l ownershipD_disjoint [OF assms(1), of a b] assms(2) by auto
    ultimately show thesis by (rule that)
  qed
  from transfer_consequences [of s' b a s ctor x v, OF own assms(2) b a assms(4)] mv keep
  show ?thesis by blast
qed

theorem move_transfer_witness:
  "ownership demo \<and> (1::ref) \<noteq> 0 \<and> (Inr :: int \<Rightarrow> exn + int) 40 = Inr 40 \<and>
   (\<exists>s'. move_assign demo 1 0 = Returns () s' \<and> size_pa s' 1 = 3 \<and>
         op_index s' 1 1 = Returns 2 s' \<and> lookup (heap s') 2 = Some 20 \<and>
         size_pa s' 0 = 0 \<and>
         (\<exists>s''. emplace Inr s' 0 40 = Returns () s'' \<and> size_pa s'' 0 = 1)) \<and>
   (\<exists>s'. move_construct demo 5 0 = Returns () s' \<and> size_pa s' 5 = 3 \<and>
         op_index s' 5 1 = Returns 2 s' \<and> lookup (heap s') 2 = Some 20 \<and>
         size_pa s' 0 = 0)"
proof -
  have ne: "(1::ref) \<noteq> 0" "(5::ref) \<noteq> 0" by simp_all
  have c: "(Inr :: int \<Rightarrow> exn + int) 40 = Inr 40" by simp
  have m: "2 \<in> set (objs demo 0)" "(1::nat) < 3" by (simp_all add: demo_facts)
  from move_transfer [where s = demo and b = 1 and a = 0 and mv = move_assign
      and ctor = Inr and x = 40 and v = 40, OF ownership_demo ne(1) _ c] m
  have "\<exists>s'. move_assign demo 1 0 = Returns () s' \<and> size_pa s' 1 = 3 \<and>
         op_index s' 1 1 = Returns 2 s' \<and> lookup (heap s') 2 = Some 20 \<and>
         size_pa s' 0 = 0 \<and>
         (\<exists>s''. emplace Inr s' 0 40 = Returns () s'' \<and> size_pa s'' 0 = 1)"
    by (fastforce simp: demo_facts)
  moreover
  from move_transfer [where s = demo and b = 5 and a = 0 and mv = move_construct
      and ctor = Inr and x = 40 and v = 40, OF ownership_demo ne(2) _ c] m
  have "\<exists>s'. move_construct demo 5 0 = Returns () s' \<and> size_pa s' 5 = 3 \<and>
         op_index s' 5 1 = Returns 2 s' \<and> lookup (heap s') 2 = Some 20 \<and>
         size_pa s' 0 = 0"
    by (fastforce simp: demo_facts)
  ultimately show ?thesis using ownership_demo c by simp
qed

text \<open>
  Claim C3. \<^verbatim>\<open>add(nullptr)\<close> always throws \<^verbatim>\<open>std::invalid_argument\<close>, which is not a
  \<^verbatim>\<open>ProgramError\<close>, and the state at the throw is the state before the call.
\<close>

theorem adopt_null_rejected:
  "\<exists>e. add s a nullptr = Throws e s \<and> dyn_class e = std_invalid_argument \<and>
       what e = msg_null_pointer \<and>
       catches std_invalid_argument e \<and> \<not> catches cls_ProgramError e"
  by (simp add: add_def invalid_argument_def what_def catches_def supers_eval)

text \<open>
  Claim C4. When the constructor of the element throws, \<^verbatim>\<open>emplace\<close> throws the same
  exception and the state is the one before the call: the same containers with the same
  pointers, the same live objects and no new one.
\<close>

theorem emplace_ctor_failure:
  assumes "ctor x = Inl e"
  shows "emplace ctor s a x = Throws e s"
  using assms by (simp add: emplace_def op_new_def)

theorem emplace_ctor_failure_witness:
  "(\<lambda>v::int. if v < 0 then Inl (invalid_argument ''negative'') else Inr v) (- 5) =
     Inl (invalid_argument ''negative'') \<and>
   emplace (\<lambda>v::int. if v < 0 then Inl (invalid_argument ''negative'') else Inr v) demo 0 (- 5) =
     Throws (invalid_argument ''negative'') demo"
  using emplace_ctor_failure
    [of "\<lambda>v::int. if v < 0 then Inl (invalid_argument ''negative'') else Inr v" "- 5"
        "invalid_argument ''negative''" demo 0]
  by simp

text \<open>
  Claim C5. \<^verbatim>\<open>clear()\<close> returns, deletes every object the container held and no other,
  leaves size 0 and the other containers as they were; called again at once it returns
  in the same state. On an empty container it returns in the state it was called in.
\<close>

theorem clear_idempotent:
  "(ownership s \<longrightarrow>
      (\<exists>s'. clear s a = Returns () s' \<and> size_pa s' a = 0 \<and>
            (\<forall>p \<in> set (objs s a). lookup (heap s') p = None) \<and>
            (\<forall>p. p \<notin> set (objs s a) \<longrightarrow> lookup (heap s') p = lookup (heap s) p) \<and>
            (\<forall>b. b \<noteq> a \<longrightarrow> objs s' b = objs s b) \<and>
            ownership s' \<and>
            clear s' a = Returns () s')) \<and>
   (empty_pa s a \<longrightarrow> clear s a = Returns () s)"
proof (intro conjI impI)
  assume own: "ownership s"
  from clear_owned [OF own, of a] obtain h' where
    c: "clear s a = Returns () (s\<lparr>heap := h', objs := (objs s)(a := [])\<rparr>)"
    and l: "\<forall>q. lookup h' q = (if q \<in> set (objs s a) then None else lookup (heap s) q)"
    by blast
  let ?s' = "s\<lparr>heap := h', objs := (objs s)(a := [])\<rparr>"
  have "size_pa ?s' a = 0" by (simp add: size_pa_def)
  moreover have "\<forall>p \<in> set (objs s a). lookup (heap ?s') p = None" using l by simp
  moreover have "\<forall>p. p \<notin> set (objs s a) \<longrightarrow> lookup (heap ?s') p = lookup (heap s) p"
    using l by simp
  moreover have "\<forall>b. b \<noteq> a \<longrightarrow> objs ?s' b = objs s b" by simp
  moreover have "ownership ?s'" using own l by (rule ownership_after_clear)
  moreover have "clear ?s' a = Returns () ?s'" by (rule clear_empty) simp
  ultimately show "\<exists>s'. clear s a = Returns () s' \<and> size_pa s' a = 0 \<and>
            (\<forall>p \<in> set (objs s a). lookup (heap s') p = None) \<and>
            (\<forall>p. p \<notin> set (objs s a) \<longrightarrow> lookup (heap s') p = lookup (heap s) p) \<and>
            (\<forall>b. b \<noteq> a \<longrightarrow> objs s' b = objs s b) \<and>
            ownership s' \<and>
            clear s' a = Returns () s'"
    using c by blast
next
  assume "empty_pa s a"
  then show "clear s a = Returns () s" by (simp add: empty_pa_def clear_empty)
qed

theorem clear_idempotent_witness:
  "ownership demo \<and>
   (\<exists>s'. clear demo 0 = Returns () s' \<and> size_pa s' 0 = 0 \<and>
         lookup (heap s') 2 = None \<and> lookup (heap s') 4 = Some 7 \<and>
         objs s' 1 = [4] \<and> clear s' 0 = Returns () s') \<and>
   empty_pa demo 5 \<and> clear demo 5 = Returns () demo"
proof -
  have e: "empty_pa demo 5" by (simp add: empty_pa_def demo_facts)
  have m: "2 \<in> set (objs demo 0)" "4 \<notin> set (objs demo 0)" "(1::ref) \<noteq> 0"
    by (simp_all add: demo_facts)
  from clear_idempotent [of demo 0] ownership_demo m
  have "\<exists>s'. clear demo 0 = Returns () s' \<and> size_pa s' 0 = 0 \<and>
         lookup (heap s') 2 = None \<and> lookup (heap s') 4 = Some 7 \<and>
         objs s' 1 = [4] \<and> clear s' 0 = Returns () s'"
    by (fastforce simp: demo_facts)
  moreover from clear_idempotent [of demo 5] e have "clear demo 5 = Returns () demo"
    by simp
  ultimately show ?thesis using ownership_demo e by simp
qed

text \<open>
  Claim C6. \<^verbatim>\<open>get(i)\<close> always returns, in the state it was called in: the pointer stored
  at position \<open>i\<close> when \<open>i < size()\<close>, the null pointer otherwise. Under the ownership
  invariant the result is non-null exactly when \<open>i < size()\<close>, and it points to the
  object that \<^verbatim>\<open>operator[]\<close> gives.
\<close>

theorem tryget_never_raises:
  "\<exists>p. get s a i = Returns p s \<and>
       (i < size_pa s a \<longrightarrow> p = objs s a ! i) \<and>
       (\<not> i < size_pa s a \<longrightarrow> p = nullptr) \<and>
       (ownership s \<longrightarrow>
          (p \<noteq> nullptr \<longleftrightarrow> i < size_pa s a) \<and>
          (i < size_pa s a \<longrightarrow> op_index s a i = Returns p s))"
proof (cases "i < length (objs s a)")
  case True
  then have "ownership s \<Longrightarrow> objs s a ! i \<noteq> nullptr"
    using ownership_nonnull [of s "objs s a ! i" a] by simp
  then show ?thesis
    using True op_index_owned [of s i a] by (auto simp: get_def size_pa_def)
next
  case False
  then show ?thesis by (simp add: get_def size_pa_def)
qed

theorem tryget_never_raises_witness:
  "ownership demo \<and> get demo 0 1 = Returns 2 demo \<and> get demo 0 10 = Returns nullptr demo"
proof -
  have sz: "size_pa demo 0 = 3" by (simp add: size_pa_def demo_def)
  have nth: "objs demo 0 ! Suc 0 = 2" by (simp add: demo_def)
  from tryget_never_raises [of demo 0 1] have "get demo 0 1 = Returns 2 demo"
    by (auto simp: sz nth)
  moreover from tryget_never_raises [of demo 0 10] have "get demo 0 10 = Returns nullptr demo"
    by (auto simp: sz)
  ultimately show ?thesis using ownership_demo by simp
qed

text \<open>
  Claim C7. \<^verbatim>\<open>add\<close> of a non-null pointer and \<^verbatim>\<open>emplace\<close> with a constructor that
  succeeds each put one element at the end: size grows by one, the new element is at
  index \<open>size() - 1\<close>, the former elements keep their indices and values. For
  \<^verbatim>\<open>emplace\<close> the new element is the constructed object.
\<close>

theorem append_one:
  "(p \<noteq> nullptr \<longrightarrow>
      (\<exists>s'. add s a p = Returns () s' \<and> appended s a s' p \<and> heap s' = heap s)) \<and>
   (ctor x = Inr v \<longrightarrow>
      (\<exists>s' q. emplace ctor s a x = Returns () s' \<and> appended s a s' q \<and>
              lookup (heap s') q = Some v \<and> (ownership s \<longrightarrow> ownership s')))"
proof (intro conjI impI)
  assume "p \<noteq> nullptr"
  then have "add s a p = Returns () (s\<lparr>objs := (objs s)(a := objs s a @ [p])\<rparr>)"
    by (simp add: add_def)
  moreover have "appended s a (s\<lparr>objs := (objs s)(a := objs s a @ [p])\<rparr>) p"
    by (simp add: appended_def size_pa_def nth_append)
  ultimately show "\<exists>s'. add s a p = Returns () s' \<and> appended s a s' p \<and> heap s' = heap s"
    by simp
next
  assume ctor: "ctor x = Inr v"
  let ?q = "Suc (length (heap s))"
  let ?s' = "s\<lparr>heap := heap s @ [Some v], objs := (objs s)(a := objs s a @ [?q])\<rparr>"
  have "emplace ctor s a x = Returns () ?s'" using ctor by (rule emplace_appends)
  moreover have "appended s a ?s' ?q"
    by (auto simp: appended_def size_pa_def nth_append lookup_append lookup_def)
  moreover have "lookup (heap ?s') ?q = Some v" by (simp add: lookup_append)
  moreover have "ownership s \<longrightarrow> ownership ?s'" by (simp add: ownership_after_emplace)
  ultimately show "\<exists>s' q. emplace ctor s a x = Returns () s' \<and> appended s a s' q \<and>
              lookup (heap s') q = Some v \<and> (ownership s \<longrightarrow> ownership s')"
    by blast
qed

theorem append_one_witness:
  "(5::addr) \<noteq> nullptr \<and> (Inr :: int \<Rightarrow> exn + int) 40 = Inr 40 \<and>
   (\<exists>s'. add demo 1 5 = Returns () s' \<and> size_pa s' 1 = 2 \<and> objs s' 1 ! 1 = 5 \<and>
         objs s' 1 ! 0 = 4 \<and> lookup (heap s') 4 = Some 7) \<and>
   (\<exists>s' q. emplace Inr demo 0 40 = Returns () s' \<and> size_pa s' 0 = 4 \<and>
           objs s' 0 ! 3 = q \<and> lookup (heap s') q = Some 40 \<and>
           objs s' 0 ! 1 = 2 \<and> lookup (heap s') 2 = Some 20)"
proof -
  have n: "(5::addr) \<noteq> nullptr" by (simp add: nullptr_def)
  have c: "(Inr :: int \<Rightarrow> exn + int) 40 = Inr 40" by simp
  from append_one [of 5 demo 1 Inr 40 40] n
  obtain s' where a: "add demo 1 5 = Returns () s'" "appended demo 1 s' 5" by blast
  from a(2) have "size_pa s' 1 = 2 \<and> objs s' 1 ! 1 = 5 \<and> objs s' 1 ! 0 = 4 \<and>
      lookup (heap s') 4 = Some 7"
    by (auto simp: appended_def demo_facts)
  with a(1) have A: "\<exists>s'. add demo 1 5 = Returns () s' \<and> size_pa s' 1 = 2 \<and>
      objs s' 1 ! 1 = 5 \<and> objs s' 1 ! 0 = 4 \<and> lookup (heap s') 4 = Some 7"
    by blast
  from append_one [of 5 demo 0 Inr 40 40] c
  obtain t q where e: "emplace Inr demo 0 40 = Returns () t" "appended demo 0 t q"
    "lookup (heap t) q = Some 40" by blast
  from e(2) have "size_pa t 0 = 4 \<and> objs t 0 ! 3 = q \<and> objs t 0 ! 1 = 2 \<and>
      lookup (heap t) 2 = Some 20"
    by (auto simp: appended_def demo_facts)
  with e(1,3) have B: "\<exists>s' q. emplace Inr demo 0 40 = Returns () s' \<and> size_pa s' 0 = 4 \<and>
           objs s' 0 ! 3 = q \<and> lookup (heap s') q = Some 40 \<and>
           objs s' 0 ! 1 = 2 \<and> lookup (heap s') 2 = Some 20"
    by blast
  from n c A B show ?thesis by simp
qed

text \<open>
  Claim C8. The constructor of \<^verbatim>\<open>ProgramError\<close> stores the message it is given and
  \<^verbatim>\<open>what()\<close> returns it, also for an object of a derived class. So each of the four
  derived exception classes, built through that constructor, carries a message of its
  own that does not depend on how it is thrown; of the four specific handlers exactly
  its own takes it, and the handler for \<^verbatim>\<open>ProgramError\<close> takes all four.
\<close>

theorem domain_error_kinds:
  "what (ProgramError m) = m \<and>
   what (derived c (ProgramError m)) = m \<and>
   what InsufficientPrivilegesError = msg_InsufficientPrivileges \<and>
   what ConversionError = msg_Conversion \<and>
   what ValueConversionError = msg_ValueConversion \<and>
   what InterfaceCastError = msg_InterfaceCast \<and>
   distinct [msg_InsufficientPrivileges, msg_Conversion, msg_ValueConversion, msg_InterfaceCast] \<and>
   filter (\<lambda>c. catches c InsufficientPrivilegesError) domain_kinds =
     [cls_InsufficientPrivilegesError] \<and>
   filter (\<lambda>c. catches c ConversionError) domain_kinds = [cls_ConversionError] \<and>
   filter (\<lambda>c. catches c ValueConversionError) domain_kinds = [cls_ValueConversionError] \<and>
   filter (\<lambda>c. catches c InterfaceCastError) domain_kinds = [cls_InterfaceCastError] \<and>
   catches cls_ProgramError InsufficientPrivilegesError \<and>
   catches cls_ProgramError ConversionError \<and>
   catches cls_ProgramError ValueConversionError \<and>
   catches cls_ProgramError InterfaceCastError"
proof -
  have "distinct [msg_InsufficientPrivileges, msg_Conversion, msg_ValueConversion,
                  msg_InterfaceCast]"
    by (simp add: msg_InsufficientPrivileges_def msg_Conversion_def msg_ValueConversion_def
          msg_InterfaceCast_def)
  then show ?thesis
    by (simp add: what_def catches_def supers_eval domain_kinds_def
          InsufficientPrivilegesError_def ConversionError_def ValueConversionError_def
          InterfaceCastError_def ProgramError_def derived_def)
qed

text \<open>
  Claim C9. Move-assigning \<open>a\<close> into another container \<open>b\<close> first clears \<open>b\<close>, so every
  object \<open>b\<close> held is deleted; afterwards \<open>b\<close> holds exactly the pointers \<open>a\<close> held, in
  their order, so its size is the size \<open>a\<close> had, and those objects are untouched.
\<close>

theorem move_assign_replaces:
  assumes "ownership s" and "b \<noteq> a"
  shows "\<exists>s1 s'. clear s b = Returns () s1 \<and> move_assign s b a = Returns () s' \<and>
           heap s' = heap s1 \<and>
           (\<forall>p \<in> set (objs s b). lookup (heap s') p = None) \<and>
           size_pa s' b = size_pa s a \<and> objs s' b = objs s a \<and>
           (\<forall>p \<in> set (objs s a). lookup (heap s') p = lookup (heap s) p) \<and>
           size_pa s' a = 0"
proof -
  from move_assign_owned [OF assms] obtain h' where
    c: "clear s b = Returns () (s\<lparr>heap := h', objs := (objs s)(b := [])\<rparr>)"
    and m: "move_assign s b a =
              Returns () (s\<lparr>heap := h', objs := (objs s)(b := objs s a, a := [])\<rparr>)"
    and l: "\<forall>q. lookup h' q = (if q \<in> set (objs s b) then None else lookup (heap s) q)"
    by blast
  let ?s1 = "s\<lparr>heap := h', objs := (objs s)(b := [])\<rparr>"
  let ?s' = "s\<lparr>heap := h', objs := (objs s)(b := objs s a, a := [])\<rparr>"
  have "heap ?s' = heap ?s1" by simp
  moreover have "\<forall>p \<in> set (objs s b). lookup (heap ?s') p = None" using l by simp
  moreover have "size_pa ?s' b = size_pa s a" "objs ?s' b = objs s a" "size_pa ?s' a = 0"
    using assms(2) by (simp_all add: size_pa_def)
  moreover have "\<forall>p \<in> set (objs s a). lookup (heap ?s') p = lookup (heap s) p"
    using l ownershipD_disjoint [OF assms(1), of a b] assms(2) by auto
  ultimately show ?thesis using c m by blast
qed

theorem move_assign_replaces_witness:
  "ownership demo \<and> (1::ref) \<noteq> 0 \<and> objs demo 1 \<noteq> [] \<and>
   (\<exists>s1 s'. clear demo 1 = Returns () s1 \<and> move_assign demo 1 0 = Returns () s' \<and>
        heap s' = heap s1 \<and> lookup (heap s') 4 = None \<and>
        size_pa s' 1 = 3 \<and> objs s' 1 = [1, 2, 3] \<and> lookup (heap s') 2 = Some 20 \<and>
        size_pa s' 0 = 0)"
proof -
  have ne: "(1::ref) \<noteq> 0" by simp
  have m: "2 \<in> set (objs demo 0)" "4 \<in> set (objs demo 1)" by (simp_all add: demo_facts)
  from move_assign_replaces [OF ownership_demo ne] m
  have "\<exists>s1 s'. clear demo 1 = Returns () s1 \<and> move_assign demo 1 0 = Returns () s' \<and>
        heap s' = heap s1 \<and> lookup (heap s') 4 = None \<and>
        size_pa s' 1 = 3 \<and> objs s' 1 = [1, 2, 3] \<and> lookup (heap s') 2 = Some 20 \<and>
        size_pa s' 0 = 0"
    by (fastforce simp: demo_facts)
  then show ?thesis using ownership_demo by (simp add: demo_facts)
qed

text \<open>
  Claim C10. Move-assigning a container to itself returns in the state it was called in:
  the same pointers in every container and the same live objects.
\<close>

theorem self_move_assign_unchanged: "move_assign s a a = Returns () s"
  by (simp add: move_assign_def)

end
